theory Spec2Isabelle
  imports Main "HOL-Library.Sublist"
begin

section \<open>Strings and the target task\<close>

text \<open>
  A Python \<^verbatim>\<open>str\<close> is a sequence of Unicode code points, so it is modelled as a list of
  natural numbers. String literals of the source are written \<open>str ''...''\<close>.
\<close>

type_synonym py_str = "nat list"

abbreviation str :: "string \<Rightarrow> py_str" where
  "str s \<equiv> map of_char s"

text \<open>
  The characters the pattern class \<^verbatim>\<open>\s\<close> accepts in a \<^verbatim>\<open>str\<close> pattern: the code points
  for which \<^verbatim>\<open>str.isspace\<close> holds (tab to carriage return, the four separators
  0x1C..0x1F, space, NEL, no-break space, and the Unicode space separators).
\<close>

definition isspace :: "nat \<Rightarrow> bool" where
  "isspace c \<longleftrightarrow>
     (9 \<le> c \<and> c \<le> 13) \<or> (28 \<le> c \<and> c \<le> 32) \<or> c = 133 \<or> c = 160 \<or> c = 5760 \<or>
     (8192 \<le> c \<and> c \<le> 8202) \<or> c = 8232 \<or> c = 8233 \<or> c = 8239 \<or> c = 8287 \<or> c = 12288"

text \<open>
  The Google task object, as far as \<^verbatim>\<open>main.py\<close> reads or writes it: \<^verbatim>\<open>gtask.title\<close>,
  \<^verbatim>\<open>gtask.notes\<close> (a string or \<^verbatim>\<open>None\<close>) and \<^verbatim>\<open>gtask.completed\<close> (a timestamp, or
  \<^verbatim>\<open>None\<close> while the task is not completed). The record is extensible: every other
  attribute of the object lives in the \<open>more\<close> part. (\<open>notes\<close> is a keyword of
  Isabelle, hence the field name \<open>notes_txt\<close>.)
\<close>

record gtask =
  title :: py_str
  notes_txt :: "py_str option"
  completed :: "nat option"

section \<open>The regular expression of \<^verbatim>\<open>extract_notion_id\<close>\<close>

text \<open>
  The fragment of Python's \<^verbatim>\<open>re\<close> syntax the source uses: a pattern is a sequence of
  items, each an atom (a literal character or one of the classes \<^verbatim>\<open>\s\<close>, \<^verbatim>\<open>\S\<close>) taken
  once, or under the greedy quantifiers \<^verbatim>\<open>*\<close> and \<^verbatim>\<open>+\<close>.
\<close>

datatype atom = Chr nat | Space | NonSpace

datatype item = One atom | Star atom | Plus atom

fun accepts :: "atom \<Rightarrow> nat \<Rightarrow> bool" where
  "accepts (Chr c) x = (x = c)"
| "accepts Space x = isspace x"
| "accepts NonSpace x = (\<not> isspace x)"

text \<open>
  The backtracking matcher, anchored at the start of the input. It returns, for each
  item of the pattern, how many characters the item consumed. A greedy quantifier first
  tries to take one more character and falls back to taking none when the rest of the
  pattern then fails.
\<close>

fun bt :: "item list \<Rightarrow> py_str \<Rightarrow> nat list option" where
  "bt [] s = Some []"
| "bt (One a # its) [] = None"
| "bt (One a # its) (x # xs) =
     (if accepts a x then map_option (Cons 1) (bt its xs) else None)"
| "bt (Star a # its) [] = map_option (Cons 0) (bt its [])"
| "bt (Star a # its) (x # xs) =
     (if accepts a x then
        (case bt (Star a # its) xs of
           Some (n # ns) \<Rightarrow> Some (Suc n # ns)
         | _ \<Rightarrow> map_option (Cons 0) (bt its (x # xs)))
      else map_option (Cons 0) (bt its (x # xs)))"
| "bt (Plus a # its) [] = None"
| "bt (Plus a # its) (x # xs) =
     (if accepts a x then
        (case bt (Star a # its) xs of
           Some (n # ns) \<Rightarrow> Some (Suc n # ns)
         | _ \<Rightarrow> None)
      else None)"

text \<open>
  \<^verbatim>\<open>re.search\<close>: the first start position, from the left, at which the pattern matches.
  A match is the start position and the lengths consumed by the items.
\<close>

fun re_search :: "item list \<Rightarrow> py_str \<Rightarrow> (nat \<times> nat list) option" where
  "re_search p [] = map_option (Pair 0) (bt p [])"
| "re_search p (x # xs) =
     (case bt p (x # xs) of
        Some ns \<Rightarrow> Some (0, ns)
      | None \<Rightarrow> map_option (\<lambda>(i, ns). (Suc i, ns)) (re_search p xs))"

text \<open>
  \<^verbatim>\<open>match.group(1)\<close> for a pattern whose only group is its last item: the text that
  item consumed.
\<close>

definition group_last :: "py_str \<Rightarrow> nat \<times> nat list \<Rightarrow> py_str" where
  "group_last s m =
     (case m of (i, ns) \<Rightarrow> take (last ns) (drop (i + sum_list (butlast ns)) s))"

text \<open>The label and the pattern \<^verbatim>\<open>r'Notion ID:\s*(\S+)'\<close>.\<close>

definition label :: py_str where
  "label = str ''Notion ID:''"

definition notion_id_pattern :: "item list" where
  "notion_id_pattern = map (\<lambda>c. One (Chr c)) label @ [Star Space, Plus NonSpace]"

text \<open>
  \<^verbatim>\<open>extract_notion_id(gtask)\<close>: \<^verbatim>\<open>None\<close> and the empty string are falsy, so the search
  runs on a non-empty notes text only.
\<close>

definition extract_notion_id :: "'a gtask_scheme \<Rightarrow> py_str option" where
  "extract_notion_id g =
     (case notes_txt g of
        None \<Rightarrow> None
      | Some n \<Rightarrow>
          if n = [] then None
          else (case re_search notion_id_pattern n of
                  Some m \<Rightarrow> Some (group_last n m)
                | None \<Rightarrow> None))"

text \<open>
  A closed form of the anchored match, used in the proofs below: the token the pattern
  captures when it matches at the start of \<open>s\<close>. Lemmas \<open>bt_pattern_None\<close> and
  \<open>bt_pattern_Some\<close> show that it agrees with the backtracking matcher.
\<close>

definition token_at :: "py_str \<Rightarrow> py_str option" where
  "token_at s =
     (if take (length label) s = label then
        (let t = takeWhile (\<lambda>c. \<not> isspace c) (dropWhile isspace (drop (length label) s))
         in if t = [] then None else Some t)
      else None)"

text \<open>
  The wording of the specification: at offset \<open>i\<close> of the notes text \<open>n\<close> stands the
  label, followed by optional whitespace and the contiguous non-whitespace token \<open>X\<close>
  (the token ends at the end of the text or before a whitespace character).
\<close>

definition label_token :: "py_str \<Rightarrow> nat \<Rightarrow> py_str \<Rightarrow> bool" where
  "label_token n i X \<longleftrightarrow>
     (\<exists>pre ws rest.
        n = pre @ label @ ws @ X @ rest \<and> length pre = i \<and>
        list_all isspace ws \<and> X \<noteq> [] \<and> list_all (\<lambda>c. \<not> isspace c) X \<and>
        (case rest of [] \<Rightarrow> True | c # _ \<Rightarrow> isspace c))"

section \<open>The two services, as \<^verbatim>\<open>main.py\<close> sees them\<close>

text \<open>
  Exceptions. A value of \<open>exn\<close> is an instance of Python's \<^verbatim>\<open>Exception\<close> class: what the
  statements of \<^verbatim>\<open>main.py\<close> raise themselves (\<^verbatim>\<open>StopIteration\<close> from \<^verbatim>\<open>next\<close>,
  \<^verbatim>\<open>KeyError\<close> from a subscript) and what a call into one of the two client libraries
  may raise (\<open>LibraryError\<close>, with its message). Interpreter-level signals
  (\<^verbatim>\<open>KeyboardInterrupt\<close>, \<^verbatim>\<open>SystemExit\<close>) derive from \<^verbatim>\<open>BaseException\<close> only, are not
  raised by any statement of the program, and are outside this model.
\<close>

datatype exn = StopIteration | KeyError py_str | LibraryError py_str

text \<open>
  \<^verbatim>\<open>str(e)\<close>, as \<^verbatim>\<open>print\<close> shows an exception. For a \<^verbatim>\<open>KeyError\<close> it is the \<^verbatim>\<open>repr\<close> of
  the key, which for the keys of \<^verbatim>\<open>main.py\<close> (plain words) is the key between two
  apostrophes (code point 39).
\<close>

fun exn_str :: "exn \<Rightarrow> py_str" where
  "exn_str StopIteration = []"
| "exn_str (KeyError k) = [39] @ k @ [39]"
| "exn_str (LibraryError m) = m"

text \<open>
  A page of the Notion database (a source record): its title and its properties by
  name, as read by \<^verbatim>\<open>task.title\<close> and \<^verbatim>\<open>task.props[...]\<close>.
\<close>

datatype prop_value = Status_value py_str | Checkbox_value bool | Other_value py_str

record page =
  page_id :: py_str
  page_title :: py_str
  page_props :: "(py_str \<times> prop_value) list"

text \<open>
  The database object returned by \<^verbatim>\<open>notion.get_db\<close>: its \<^verbatim>\<open>is_empty\<close> flag, the names of
  the options of its Status column (\<^verbatim>\<open>schema.status.type.options\<close>, which is also
  \<^verbatim>\<open>status_col.type.options\<close>), and its pages.
\<close>

record notion_db =
  is_empty :: bool
  status_options :: "py_str list"
  pages :: "page list"

text \<open>
  Query conditions, as the source builds them: \<^verbatim>\<open>uno.prop(p).has_value(v)\<close>,
  \<^verbatim>\<open>uno.prop(p) == b\<close> for a checkbox, and \<^verbatim>\<open>c1 & c2\<close>.
\<close>

datatype condition = Has_value py_str py_str | Equals py_str bool | And condition condition

text \<open>The keyword arguments of \<^verbatim>\<open>SyncGTasks(...)\<close>.\<close>

record sync_gtasks =
  sync_notion_db :: notion_db
  sync_tasklist :: py_str
  completed_col :: py_str
  completed_val :: py_str
  not_completed_val :: py_str
  due_col :: py_str

text \<open>
  What the program does to the outside world, in order: the lines it prints, the calls
  it makes into the two client libraries, and its sleeps.
\<close>

datatype event =
    Print py_str
  | Mark_completed
  | Mark_incomplete
  | Update
  | Get_cfg
  | Open_session
  | Open_gtasks_client py_str py_str bool
  | Get_db py_str
  | Execute_query condition
  | Get_prop py_str
  | Get_or_create_tasklist py_str
  | New_sync_gtasks sync_gtasks
  | Schedule nat nat
  | Run_all_tasks
  | Close_gtasks_client
  | Close_session
  | Sleep nat

text \<open>
  The environment of one invocation: everything the two libraries answer. \<open>fails\<close>
  tells which library calls raise, and with what; \<open>now\<close> is the clock; \<open>the_db\<close> is
  the object \<^verbatim>\<open>get_db\<close> returns; \<open>prop_str\<close> is \<^verbatim>\<open>str\<close> of a property value; and
  \<open>run_tasks\<close> is what \<^verbatim>\<open>sync.run_all_tasks()\<close> does to the tasks of the Google task
  list for the scheduled sync task. None of these is code of \<^verbatim>\<open>main.py\<close>, so each is a
  parameter.
\<close>

record env =
  fails :: "event \<Rightarrow> exn option"
  now :: nat
  the_db :: notion_db
  prop_str :: "prop_value \<Rightarrow> py_str"
  run_tasks :: "sync_gtasks \<Rightarrow> gtask list \<Rightarrow> gtask list"

section \<open>The Status Reconciler\<close>

text \<open>
  A statement acting on the task object yields an outcome (an exception or nothing),
  the task object as it then is, and the events it caused. \<open>seq\<close> runs a second
  statement after a first one, unless the first raised.
\<close>

type_synonym 'g stmt = "(exn + unit) \<times> 'g \<times> event list"

definition seq :: "'g stmt \<Rightarrow> ('g \<Rightarrow> 'g stmt) \<Rightarrow> 'g stmt" where
  "seq m f =
     (case m of
        (Inl e, g, t) \<Rightarrow> (Inl e, g, t)
      | (Inr _, g, t) \<Rightarrow> (case f g of (r, g', t') \<Rightarrow> (r, g', t @ t')))"

definition print_line :: "py_str \<Rightarrow> 'g \<Rightarrow> 'g stmt" where
  "print_line msg g = (Inr (), g, [Print msg])"

text \<open>
  Modelled from the spec: the three methods of the task object belong to the Google Tasks
  client library, not to \<^verbatim>\<open>main.py\<close>. The specification calls them "mark target
  completed", "mark target incomplete" (the completion timestamp becomes present, resp.
  absent) and the "persistence call" (the task's state is sent to the service; the
  object itself stays as it is). Each may raise, as the environment says; a call that
  raises leaves the object as it was.
\<close>

definition mark_completed :: "'e env_scheme \<Rightarrow> 'a gtask_scheme \<Rightarrow> 'a gtask_scheme stmt" where
  "mark_completed env g =
     (case fails env Mark_completed of
        Some e \<Rightarrow> (Inl e, g, [Mark_completed])
      | None \<Rightarrow> (Inr (), g\<lparr>completed := Some (now env)\<rparr>, [Mark_completed]))"

definition mark_incomplete :: "'e env_scheme \<Rightarrow> 'a gtask_scheme \<Rightarrow> 'a gtask_scheme stmt" where
  "mark_incomplete env g =
     (case fails env Mark_incomplete of
        Some e \<Rightarrow> (Inl e, g, [Mark_incomplete])
      | None \<Rightarrow> (Inr (), g\<lparr>completed := None\<rparr>, [Mark_incomplete]))"

definition update :: "'e env_scheme \<Rightarrow> 'a gtask_scheme \<Rightarrow> 'a gtask_scheme stmt" where
  "update env g =
     (case fails env Update of
        Some e \<Rightarrow> (Inl e, g, [Update])
      | None \<Rightarrow> (Inr (), g, [Update]))"

text \<open>
  \<^verbatim>\<open>update_google_task_status(gtask, notion_done)\<close>. The two messages are the f-strings
  of the source; code point 39 is the apostrophe. \<^verbatim>\<open>gtask.update()\<close> stands after the
  \<^verbatim>\<open>if\<close>/\<^verbatim>\<open>elif\<close>, so it runs in every case.
\<close>

definition update_google_task_status ::
  "'e env_scheme \<Rightarrow> 'a gtask_scheme \<Rightarrow> bool \<Rightarrow> 'a gtask_scheme stmt" where
  "update_google_task_status env gtask notion_done =
     (let gtask_is_done = (completed gtask \<noteq> None) in
      seq (if notion_done \<and> \<not> gtask_is_done then
             seq (mark_completed env gtask)
               (\<lambda>g. print_line
                  (str ''Marked '' @ [39] @ title g @ [39] @ str '' as completed in Google Tasks.'') g)
           else if \<not> notion_done \<and> gtask_is_done then
             seq (mark_incomplete env gtask)
               (\<lambda>g. print_line
                  (str ''Marked '' @ [39] @ title g @ [39] @ str '' as not completed in Google Tasks.'') g)
           else (Inr (), gtask, []))
        (update env))"

text \<open>An environment in which no library call raises, for the concrete instances below.\<close>

definition calm_env :: env where
  "calm_env =
     \<lparr>fails = (\<lambda>_. None), now = 1700000000,
      the_db = \<lparr>is_empty = True, status_options = [], pages = []\<rparr>,
      prop_str = (\<lambda>_. []), run_tasks = (\<lambda>_ ts. ts)\<rparr>"

text \<open>
  An environment in which the service does not support marking a task as not
  completed: \<^verbatim>\<open>mark_incomplete\<close> raises, every other call goes through.
\<close>

definition no_unmark_env :: env where
  "no_unmark_env =
     \<lparr>fails = (\<lambda>ev. if ev = Mark_incomplete then Some (LibraryError (str ''not supported''))
                     else None),
      now = 1700000000,
      the_db = \<lparr>is_empty = True, status_options = [], pages = []\<rparr>,
      prop_str = (\<lambda>_. []), run_tasks = (\<lambda>_ ts. ts)\<rparr>"

section \<open>The Query Filter\<close>

text \<open>
  Modelled from the spec: the conditions are evaluated by the Notion service, not by
  \<^verbatim>\<open>main.py\<close>. The specification reads \<^verbatim>\<open>has_value\<close> as equality of the status with the
  given option name, \<^verbatim>\<open>==\<close> as equality of the checkbox with the given boolean, and \<^verbatim>\<open>&\<close>
  as logical conjunction. A page without the property does not satisfy a condition on it.
\<close>

fun holds :: "condition \<Rightarrow> page \<Rightarrow> bool" where
  "holds (Has_value p v) pg = (map_of (page_props pg) p = Some (Status_value v))"
| "holds (Equals p b) pg = (map_of (page_props pg) p = Some (Checkbox_value b))"
| "holds (And c1 c2) pg = (holds c1 pg \<and> holds c2 pg)"

text \<open>The four filter values of \<^verbatim>\<open>sync_inbox_to_gtasks\<close>; \<^verbatim>\<open>a & b & c\<close> is \<^verbatim>\<open>(a & b) & c\<close>.\<close>

definition status_filter :: condition where
  "status_filter = Has_value (str ''Status'') (str ''Organized'')"

definition for_later_filter :: condition where
  "for_later_filter = Equals (str ''For Later'') False"

definition dump_it_filter :: condition where
  "dump_it_filter = Equals (str ''Dump It'') False"

definition combined_filter :: condition where
  "combined_filter = And (And status_filter for_later_filter) dump_it_filter"

section \<open>The Sync Orchestrator\<close>

text \<open>
  The state of the outside world: the events so far, and the tasks of the Google task
  list. A computation takes the world and yields an exception or a value, and the world
  as it then is.
\<close>

record world =
  trace :: "event list"
  tasks :: "gtask list"

type_synonym 'a comp = "world \<Rightarrow> (exn + 'a) \<times> world"

definition ret :: "'a \<Rightarrow> 'a comp" where
  "ret x = (\<lambda>w. (Inr x, w))"

definition raise :: "exn \<Rightarrow> 'a comp" where
  "raise e = (\<lambda>w. (Inl e, w))"

definition bind :: "'a comp \<Rightarrow> ('a \<Rightarrow> 'b comp) \<Rightarrow> 'b comp" where
  "bind m f = (\<lambda>w. case m w of (Inl e, w') \<Rightarrow> (Inl e, w') | (Inr x, w') \<Rightarrow> f x w')"

definition emit :: "event \<Rightarrow> unit comp" where
  "emit ev = (\<lambda>w. (Inr (), w\<lparr>trace := trace w @ [ev]\<rparr>))"

text \<open>A call into a library: it is recorded, and raises if the environment says so.\<close>

definition lib :: "env \<Rightarrow> event \<Rightarrow> unit comp" where
  "lib env ev =
     bind (emit ev) (\<lambda>_. case fails env ev of Some e \<Rightarrow> raise e | None \<Rightarrow> ret ())"

text \<open>
  Leaving a \<^verbatim>\<open>with\<close> block: the context manager's exit runs whether the body returned
  or raised, and the body's outcome stands.
\<close>

definition leaving :: "'a comp \<Rightarrow> event \<Rightarrow> 'a comp" where
  "leaving m ev = (\<lambda>w. case m w of (r, w') \<Rightarrow> (r, w'\<lparr>trace := trace w' @ [ev]\<rparr>))"

text \<open>A subscript \<^verbatim>\<open>d[k]\<close> on a mapping raises \<^verbatim>\<open>KeyError\<close> when the key is missing.\<close>

definition subscript :: "(py_str \<times> 'v) list \<Rightarrow> py_str \<Rightarrow> 'v comp" where
  "subscript d k = (case map_of d k of None \<Rightarrow> raise (KeyError k) | Some v \<Rightarrow> ret v)"

definition option_named :: "py_str list \<Rightarrow> py_str \<Rightarrow> py_str comp" where
  "option_named opts k = (if k \<in> set opts then ret k else raise (KeyError k))"

definition DATABASE_ID :: py_str where
  "DATABASE_ID = str ''110f4691b8df8196963fd95c0a64682f''"

definition client_secret_json :: py_str where
  "client_secret_json = str ''/home/slanycukr/Documents/notion-google-tasks-syncer/client_secret.json''"

definition token_json :: py_str where
  "token_json = str ''/home/slanycukr/Documents/notion-google-tasks-syncer/token.json''"

text \<open>
  The \<^verbatim>\<open>for task in results\<close> loop: four printed lines per result. The properties are read
  under the names \<^verbatim>\<open>'Status'\<close>, \<^verbatim>\<open>'For later'\<close> and \<^verbatim>\<open>'Dump it'\<close>; the last line ends in an
  extra newline (code point 10).
\<close>

fun print_results :: "env \<Rightarrow> page list \<Rightarrow> unit comp" where
  "print_results env [] = ret ()"
| "print_results env (task # rest) =
     bind (emit (Print (str ''Task: '' @ page_title task))) (\<lambda>_.
     bind (subscript (page_props task) (str ''Status'')) (\<lambda>s.
     bind (emit (Print (str ''Status: '' @ prop_str env s))) (\<lambda>_.
     bind (subscript (page_props task) (str ''For later'')) (\<lambda>f.
     bind (emit (Print (str ''For Later: '' @ prop_str env f))) (\<lambda>_.
     bind (subscript (page_props task) (str ''Dump it'')) (\<lambda>d.
     bind (emit (Print (str ''Dump It: '' @ prop_str env d @ [10]))) (\<lambda>_.
     print_results env rest)))))))"

text \<open>
  \<^verbatim>\<open>sync.run_all_tasks()\<close>: the library runs the scheduled sync task; what that does to the
  tasks of the Google task list is the environment's \<open>run_tasks\<close>.
\<close>

definition run_all_tasks :: "env \<Rightarrow> sync_gtasks \<Rightarrow> unit comp" where
  "run_all_tasks env sync_task =
     bind (lib env Run_all_tasks)
       (\<lambda>_ w. (Inr (), w\<lparr>tasks := run_tasks env sync_task (tasks w)\<rparr>))"

text \<open>
  The body of the \<^verbatim>\<open>with\<close> block of \<^verbatim>\<open>sync_inbox_to_gtasks\<close>, statement by statement. The
  query result is the list of the pages that satisfy the filter. \<^verbatim>\<open>next(...)\<close> without a
  default raises \<^verbatim>\<open>StopIteration\<close> when no option is named \<^verbatim>\<open>'Organized'\<close>. The keyword
  arguments of \<^verbatim>\<open>SyncGTasks\<close> are evaluated in their order, so the two subscripts on the
  options come before the constructor call.
\<close>

definition sync_body :: "env \<Rightarrow> unit comp" where
  "sync_body env =
     bind (lib env (Get_db DATABASE_ID)) (\<lambda>_.
     let inbox_db = the_db env in
     if is_empty inbox_db then
       emit (Print (str ''Could not load the Notion database with ID: '' @ DATABASE_ID @ str ''.''))
     else
       bind (if str ''Organized'' \<in> set (status_options inbox_db) then ret ()
             else raise StopIteration) (\<lambda>_.
       bind (lib env (Execute_query combined_filter)) (\<lambda>_.
       bind (print_results env (filter (holds combined_filter) (pages inbox_db))) (\<lambda>_.
       bind (lib env (Get_prop (str ''Status''))) (\<lambda>_.
       bind (lib env (Get_prop (str ''Date''))) (\<lambda>_.
       bind (lib env (Get_or_create_tasklist (str ''My synced task list''))) (\<lambda>_.
       bind (option_named (status_options inbox_db) (str ''Done'')) (\<lambda>done_val.
       bind (option_named (status_options inbox_db) (str ''Backlog'')) (\<lambda>backlog_val.
       let sync_task =
             \<lparr>sync_notion_db = inbox_db, sync_tasklist = str ''My synced task list'',
              completed_col = str ''Status'', completed_val = done_val,
              not_completed_val = backlog_val, due_col = str ''Date''\<rparr> in
       bind (lib env (New_sync_gtasks sync_task)) (\<lambda>_.
       bind (lib env (Schedule 1 2)) (\<lambda>_.
       bind (run_all_tasks env sync_task) (\<lambda>_.
       emit (Print (str ''Sync complete.'' @ [10]))))))))))))))"

text \<open>
  \<^verbatim>\<open>sync_inbox_to_gtasks()\<close>: the configuration, then the two sessions of the \<^verbatim>\<open>with\<close>
  statement around the body. Each session that was opened is closed again.
\<close>

definition sync_inbox_to_gtasks :: "env \<Rightarrow> unit comp" where
  "sync_inbox_to_gtasks env =
     bind (lib env Get_cfg) (\<lambda>_.
     bind (lib env Open_session) (\<lambda>_.
     leaving
       (bind (lib env (Open_gtasks_client client_secret_json token_json False)) (\<lambda>_.
        leaving (sync_body env) Close_gtasks_client))
       Close_session))"

section \<open>The Scheduling Loop\<close>

definition SYNC_INTERVAL :: nat where
  "SYNC_INTERVAL = 60"

text \<open>
  \<^verbatim>\<open>try: ... except Exception as e: ...\<close>. Every value of \<open>exn\<close> is an instance of
  \<^verbatim>\<open>Exception\<close>, so the handler takes each of them; what the handler itself raises is
  not caught.
\<close>

definition try_except :: "'a comp \<Rightarrow> (exn \<Rightarrow> 'a comp) \<Rightarrow> 'a comp" where
  "try_except m h = (\<lambda>w. case m w of (Inl e, w') \<Rightarrow> h e w' | (Inr x, w') \<Rightarrow> (Inr x, w'))"

text \<open>
  The body of \<^verbatim>\<open>while True\<close>: the \<^verbatim>\<open>try\<close> around the Orchestrator, whose handler prints
  its two arguments with a space between them, and then \<^verbatim>\<open>time.sleep(SYNC_INTERVAL)\<close>.
\<close>

definition loop_body :: "env \<Rightarrow> unit comp" where
  "loop_body env =
     bind (try_except (sync_inbox_to_gtasks env)
             (\<lambda>e. emit (Print (str ''An error occurred during sync:'' @ str '' '' @ exn_str e))))
       (\<lambda>_. emit (Sleep SYNC_INTERVAL))"

text \<open>
  The loop itself, with fuel: \<open>main_loop n\<close> makes at most \<open>n\<close> passes, pass number \<open>k\<close>
  in the environment \<open>envs k\<close>. The loop has no \<^verbatim>\<open>break\<close> and no \<^verbatim>\<open>return\<close>, so it ends
  only when its body raises; when the fuel is spent the loop is still running.
\<close>

datatype outcome = Still_running | Raised exn

fun main_loop :: "nat \<Rightarrow> (nat \<Rightarrow> env) \<Rightarrow> nat \<Rightarrow> world \<Rightarrow> outcome \<times> world" where
  "main_loop 0 envs k w = (Still_running, w)"
| "main_loop (Suc n) envs k w =
     (case loop_body (envs k) w of
        (Inl e, w') \<Rightarrow> (Raised e, w')
      | (Inr _, w') \<Rightarrow> main_loop n envs (Suc k) w')"

text \<open>\<^verbatim>\<open>__main__\<close>: the starting line, then the loop.\<close>

definition main :: "nat \<Rightarrow> (nat \<Rightarrow> env) \<Rightarrow> world \<Rightarrow> outcome \<times> world" where
  "main n envs w =
     main_loop n envs 0
       (w\<lparr>trace := trace w @ [Print (str ''Starting Notion-to-Google Tasks sync...'')]\<rparr>)"

fun is_sleep :: "event \<Rightarrow> bool" where
  "is_sleep (Sleep d) = True"
| "is_sleep _ = False"

text \<open>
  The events that only the Status Reconciler (its three calls on a task object) and the
  loop (its sleeps) cause, set apart from all the others.
\<close>

fun orchestrator_event :: "event \<Rightarrow> bool" where
  "orchestrator_event Mark_completed = False"
| "orchestrator_event Mark_incomplete = False"
| "orchestrator_event Update = False"
| "orchestrator_event (Sleep d) = False"
| "orchestrator_event _ = True"

text \<open>A computation that only appends events, each of which satisfies \<open>P\<close>.\<close>

definition emits_only :: "(event \<Rightarrow> bool) \<Rightarrow> 'a comp \<Rightarrow> bool" where
  "emits_only P m \<longleftrightarrow> (\<forall>w. \<exists>t. trace (snd (m w)) = trace w @ t \<and> list_all P t)"

section \<open>Concrete inputs\<close>

text \<open>
  A world with nothing printed yet and one task in the Google task list, which carries
  the back-reference of the page below and is not completed.
\<close>

definition one_task_world :: world where
  "one_task_world =
     \<lparr>trace = [],
      tasks = [\<lparr>title = str ''Write report'', notes_txt = Some (str ''Notion ID: abc123''),
                completed = None\<rparr>]\<rparr>"

text \<open>
  A database with one page that satisfies the filter: status Organized, both flags
  unchecked, under the property names the filter uses; its \<^verbatim>\<open>Done!\<close> box is checked.
\<close>

definition report_page :: page where
  "report_page =
     \<lparr>page_id = str ''abc123'', page_title = str ''Write report'',
      page_props =
        [(str ''Status'', Status_value (str ''Organized'')),
         (str ''For Later'', Checkbox_value False),
         (str ''Dump It'', Checkbox_value False),
         (str ''Done!'', Checkbox_value True)]\<rparr>"

definition inbox_env :: env where
  "inbox_env =
     \<lparr>fails = (\<lambda>_. None), now = 1700000000,
      the_db = \<lparr>is_empty = False,
                status_options = [str ''To Organize'', str ''Organized'', str ''Done'', str ''Backlog''],
                pages = [report_page]\<rparr>,
      prop_str = (\<lambda>v. case v of Status_value s \<Rightarrow> s
                        | Checkbox_value b \<Rightarrow> (if b then str ''True'' else str ''False'')
                        | Other_value s \<Rightarrow> s),
      run_tasks = (\<lambda>_ ts. ts)\<rparr>"

text \<open>An environment in which the Notion service cannot be reached.\<close>

definition offline_env :: env where
  "offline_env =
     \<lparr>fails = (\<lambda>ev. if ev = Get_db DATABASE_ID then Some (LibraryError (str ''timeout''))
                     else None),
      now = 1700000000,
      the_db = \<lparr>is_empty = False, status_options = [], pages = []\<rparr>,
      prop_str = (\<lambda>_. []), run_tasks = (\<lambda>_ ts. ts)\<rparr>"

section \<open>The Identity Extractor\<close>

subsection \<open>The backtracking matcher on the pattern of the source\<close>

lemma bt_length: "bt p s = Some ns \<Longrightarrow> length ns = length p"
  by (induction p s arbitrary: ns rule: bt.induct) (auto split: if_splits option.splits list.splits)

lemma bt_lits:
  "bt (map (\<lambda>c. One (Chr c)) l @ its) s =
     (if take (length l) s = l
      then map_option (\<lambda>ns. replicate (length l) 1 @ ns) (bt its (drop (length l) s))
      else None)"
proof (induction l arbitrary: s)
  case Nil
  show ?case by (cases "bt its s") simp_all
next
  case (Cons c l)
  show ?case
  proof (cases s)
    case Nil
    then show ?thesis by simp
  next
    case (Cons x xs)
    then show ?thesis using Cons.IH [of xs]
      by (auto simp: option.map_comp comp_def)
  qed
qed

lemma bt_star_nonspace:
  "bt [Star NonSpace] s = Some [length (takeWhile (\<lambda>c. \<not> isspace c) s)]"
  by (induction s) auto

lemma bt_plus_nonspace:
  "bt [Plus NonSpace] s =
     (if takeWhile (\<lambda>c. \<not> isspace c) s = [] then None
      else Some [length (takeWhile (\<lambda>c. \<not> isspace c) s)])"
  by (cases s) (auto simp: bt_star_nonspace)

lemma bt_star_space_plus:
  "bt [Star Space, Plus NonSpace] s =
     (if takeWhile (\<lambda>c. \<not> isspace c) (dropWhile isspace s) = [] then None
      else Some [length (takeWhile isspace s),
                 length (takeWhile (\<lambda>c. \<not> isspace c) (dropWhile isspace s))])"
proof (induction s)
  case Nil
  show ?case by simp
next
  case (Cons x xs)
  show ?case
  proof (cases "isspace x")
    case True
    then show ?thesis using Cons.IH by (simp add: bt_plus_nonspace)
  next
    case False
    then show ?thesis by (simp add: bt_star_nonspace)
  qed
qed


lemma re_search_SomeD:
  "re_search p s = Some (i, ns) \<Longrightarrow>
     i \<le> length s \<and> bt p (drop i s) = Some ns \<and> (\<forall>j<i. bt p (drop j s) = None)"
proof (induction s arbitrary: i)
  case Nil
  then show ?case by auto
next
  case (Cons x xs)
  show ?case
  proof (cases "bt p (x # xs)")
    case (Some ms)
    with Cons.prems show ?thesis by simp
  next
    case None
    with Cons.prems obtain k where k: "re_search p xs = Some (k, ns)" "i = Suc k"
      by auto
    from Cons.IH [OF k(1)] None k(2) show ?thesis
      by (auto simp: less_Suc_eq_0_disj)
  qed
qed

lemma re_search_NoneD:
  "re_search p s = None \<Longrightarrow> j \<le> length s \<Longrightarrow> bt p (drop j s) = None"
proof (induction s arbitrary: j)
  case Nil
  then show ?case by simp
next
  case (Cons x xs)
  then show ?case by (cases j) (auto split: option.splits)
qed

lemma bt_pattern_None: "bt notion_id_pattern s = None \<longleftrightarrow> token_at s = None"
  by (simp add: notion_id_pattern_def bt_lits bt_star_space_plus token_at_def Let_def)

lemma bt_pattern_Some:
  assumes "bt notion_id_pattern s = Some ns"
  shows "token_at s = Some (take (last ns) (drop (sum_list (butlast ns)) s))"
proof -
  let ?r = "drop (length label) s"
  let ?a = "length (takeWhile isspace ?r)"
  let ?t = "takeWhile (\<lambda>c. \<not> isspace c) (dropWhile isspace ?r)"
  from assms have pre: "take (length label) s = label" and ne: "?t \<noteq> []"
    and ns: "ns = replicate (length label) 1 @ [?a, length ?t]"
    by (auto simp: notion_id_pattern_def bt_lits bt_star_space_plus split: if_splits)
  have "drop (sum_list (butlast ns)) s = drop ?a ?r"
    by (simp add: ns butlast_append sum_list_replicate add.commute)
  also have "\<dots> = dropWhile isspace ?r"
    by (simp add: dropWhile_eq_drop)
  finally have "take (last ns) (drop (sum_list (butlast ns)) s) = take (length ?t) (dropWhile isspace ?r)"
    by (simp add: ns)
  also have "\<dots> = ?t"
    by (simp add: takeWhile_eq_take [symmetric])
  finally show ?thesis using pre ne by (simp add: token_at_def Let_def)
qed

lemma search_pattern_Some:
  assumes "re_search notion_id_pattern n = Some m"
  shows "\<exists>i\<le>length n. token_at (drop i n) = Some (group_last n m) \<and>
           (\<forall>j<i. token_at (drop j n) = None)"
proof -
  obtain i ns where m: "m = (i, ns)" by (cases m)
  from re_search_SomeD [OF assms [unfolded m]]
  have i: "i \<le> length n" and b: "bt notion_id_pattern (drop i n) = Some ns"
    and f: "\<forall>j<i. bt notion_id_pattern (drop j n) = None" by auto
  have "group_last n m = take (last ns) (drop (sum_list (butlast ns)) (drop i n))"
    by (simp add: m group_last_def add.commute)
  with bt_pattern_Some [OF b] f i show ?thesis
    by (auto simp: bt_pattern_None)
qed

lemma search_pattern_None:
  "re_search notion_id_pattern n = None \<Longrightarrow> j \<le> length n \<Longrightarrow> token_at (drop j n) = None"
  using re_search_NoneD [of notion_id_pattern n j] by (simp add: bt_pattern_None)


lemma token_at_decomp:
  assumes "list_all isspace ws" "X \<noteq> []" "list_all (\<lambda>c. \<not> isspace c) X"
    and "case rest of [] \<Rightarrow> True | c # _ \<Rightarrow> isspace c"
  shows "token_at (label @ ws @ X @ rest) = Some X"
proof -
  from assms(2,3) obtain x xs where X: "X = x # xs" "\<not> isspace x"
    by (cases X) auto
  have "dropWhile isspace (ws @ X @ rest) = X @ rest"
    using assms(1) X by (simp add: dropWhile_append2 list_all_iff)
  moreover have "takeWhile (\<lambda>c. \<not> isspace c) (X @ rest) = X"
    using assms(3,4) by (cases rest) (simp_all add: takeWhile_append2 list_all_iff)
  ultimately show ?thesis using assms(2) by (simp add: token_at_def Let_def)
qed

lemma token_at_SomeD:
  assumes "token_at s = Some X"
  shows "\<exists>ws rest. s = label @ ws @ X @ rest \<and> list_all isspace ws \<and> X \<noteq> [] \<and>
           list_all (\<lambda>c. \<not> isspace c) X \<and> (case rest of [] \<Rightarrow> True | c # _ \<Rightarrow> isspace c)"
proof -
  let ?r = "drop (length label) s"
  let ?d = "dropWhile isspace ?r"
  from assms have pre: "take (length label) s = label"
    and X: "X = takeWhile (\<lambda>c. \<not> isspace c) ?d" and ne: "X \<noteq> []"
    by (auto simp: token_at_def Let_def split: if_splits)
  have "s = take (length label) s @ ?r" by simp
  also have "?r = takeWhile isspace ?r @ ?d" by simp
  also have "?d = X @ dropWhile (\<lambda>c. \<not> isspace c) ?d" by (simp add: X)
  finally have s: "s = label @ takeWhile isspace ?r @ X @ dropWhile (\<lambda>c. \<not> isspace c) ?d"
    using pre by simp
  have ws: "list_all isspace (takeWhile isspace ?r)"
    by (auto simp: list_all_iff dest: set_takeWhileD)
  have nx: "list_all (\<lambda>c. \<not> isspace c) X"
    by (auto simp: X list_all_iff dest: set_takeWhileD)
  have rest: "case dropWhile (\<lambda>c. \<not> isspace c) ?d of [] \<Rightarrow> True | c # _ \<Rightarrow> isspace c"
    by (auto split: list.splits simp: dropWhile_eq_Cons_conv)
  from s ws nx rest ne show ?thesis by blast
qed

lemma label_token_iff:
  "label_token n i X \<longleftrightarrow> i \<le> length n \<and> token_at (drop i n) = Some X"
proof
  assume "label_token n i X"
  then obtain pre ws rest where n: "n = pre @ label @ ws @ X @ rest" and i: "length pre = i"
    and h: "list_all isspace ws" "X \<noteq> []" "list_all (\<lambda>c. \<not> isspace c) X"
      "case rest of [] \<Rightarrow> True | c # _ \<Rightarrow> isspace c"
    unfolding label_token_def by blast
  from n i have "drop i n = label @ ws @ X @ rest" by simp
  with token_at_decomp [OF h] n i show "i \<le> length n \<and> token_at (drop i n) = Some X"
    by simp
next
  assume a: "i \<le> length n \<and> token_at (drop i n) = Some X"
  with token_at_SomeD [of "drop i n" X] obtain ws rest where
    d: "drop i n = label @ ws @ X @ rest" and
    h: "list_all isspace ws" "X \<noteq> []" "list_all (\<lambda>c. \<not> isspace c) X"
      "case rest of [] \<Rightarrow> True | c # _ \<Rightarrow> isspace c"
    by blast
  have "n = take i n @ label @ ws @ X @ rest" using d by (metis append_take_drop_id)
  moreover have "length (take i n) = i" using a by simp
  ultimately show "label_token n i X" using h unfolding label_token_def by blast
qed

lemma token_at_sublist: "token_at (drop j n) = Some X \<Longrightarrow> sublist label n"
proof -
  assume "token_at (drop j n) = Some X"
  then have "take (length label) (drop j n) = label"
    by (simp add: token_at_def split: if_splits)
  then have "n = take j n @ label @ drop (length label) (drop j n)"
    by (metis append_take_drop_id)
  then show ?thesis unfolding sublist_def by blast
qed

lemma extract_first:
  assumes "notes_txt g = Some n" "i \<le> length n" "token_at (drop i n) = Some X"
    and "\<forall>j<i. token_at (drop j n) = None"
  shows "extract_notion_id g = Some X"
proof -
  have ne: "n \<noteq> []" using assms(3) by (auto simp: token_at_def label_def split: if_splits)
  show ?thesis
  proof (cases "re_search notion_id_pattern n")
    case None
    from search_pattern_None [OF None assms(2)] assms(3) show ?thesis by simp
  next
    case (Some m)
    from search_pattern_Some [OF Some] obtain k where
      k: "k \<le> length n" "token_at (drop k n) = Some (group_last n m)"
        "\<forall>j<k. token_at (drop j n) = None" by blast
    have "k = i"
    proof (rule ccontr)
      assume "k \<noteq> i"
      then consider "k < i" | "i < k" by linarith
      then show False using k assms(3,4) by cases auto
    qed
    with k(2) assms(3) have "group_last n m = X" by simp
    with Some ne assms(1) show ?thesis by (simp add: extract_notion_id_def)
  qed
qed

lemma extract_SomeD:
  assumes "extract_notion_id g = Some X"
  shows "\<exists>n i. notes_txt g = Some n \<and> i \<le> length n \<and> token_at (drop i n) = Some X \<and>
           (\<forall>j<i. token_at (drop j n) = None)"
proof -
  from assms obtain n m where n: "notes_txt g = Some n" "n \<noteq> []"
    and m: "re_search notion_id_pattern n = Some m" and X: "X = group_last n m"
    by (auto simp: extract_notion_id_def split: option.splits if_splits)
  from search_pattern_Some [OF m] n(1) X show ?thesis by blast
qed

lemma extract_None_no_label:
  assumes "notes_txt g = Some n" "\<not> sublist label n"
  shows "extract_notion_id g = None"
proof (cases "extract_notion_id g")
  case None
  then show ?thesis .
next
  case (Some X)
  from extract_SomeD [OF Some] assms(1) obtain i where "token_at (drop i n) = Some X" by auto
  with token_at_sublist assms(2) show ?thesis by blast
qed

subsection \<open>Claims about \<^verbatim>\<open>extract_notion_id\<close>\<close>

text \<open>
  Claim C3. If the notes text contains the label \<^verbatim>\<open>Notion ID:\<close> followed by optional
  whitespace and a contiguous non-whitespace token \<open>X\<close>, and this is the first such
  occurrence, then \<^verbatim>\<open>extract_notion_id\<close> returns exactly \<open>X\<close>. If the notes text
  does not contain the label at all, it returns \<^verbatim>\<open>None\<close>.
\<close>

theorem extract_notion_id_labelled:
  "(notes_txt g = Some n \<and> label_token n i X \<and> (\<forall>j<i. \<forall>Y. \<not> label_token n j Y)
      \<longrightarrow> extract_notion_id g = Some X) \<and>
   (notes_txt g = Some n \<and> \<not> sublist label n \<longrightarrow> extract_notion_id g = None)"
proof (intro conjI impI)
  assume a: "notes_txt g = Some n \<and> label_token n i X \<and> (\<forall>j<i. \<forall>Y. \<not> label_token n j Y)"
  then have i: "i \<le> length n" and t: "token_at (drop i n) = Some X"
    by (simp_all add: label_token_iff)
  have "\<forall>j<i. token_at (drop j n) = None"
  proof (intro allI impI)
    fix j assume "j < i"
    with a i have "j \<le> length n" "\<forall>Y. \<not> label_token n j Y" by auto
    then show "token_at (drop j n) = None"
      by (cases "token_at (drop j n)") (auto simp: label_token_iff)
  qed
  with a i t show "extract_notion_id g = Some X"
    by (intro extract_first [of g n i X]) auto
next
  assume "notes_txt g = Some n \<and> \<not> sublist label n"
  then show "extract_notion_id g = None"
    using extract_None_no_label [of g n] by blast
qed

theorem extract_notion_id_labelled_witness:
  "label_token (str ''Do Notion ID: abc123 ok'') 3 (str ''abc123'') \<and>
   extract_notion_id \<lparr>title = str ''Buy milk'',
      notes_txt = Some (str ''Do Notion ID: abc123 ok''), completed = None\<rparr>
     = Some (str ''abc123'') \<and>
   \<not> sublist label (str ''no id here'') \<and>
   extract_notion_id \<lparr>title = str ''Buy milk'',
      notes_txt = Some (str ''no id here''), completed = None\<rparr> = None"
proof -
  let ?n = "str ''Do Notion ID: abc123 ok''"
  let ?g = "\<lparr>title = str ''Buy milk'', notes_txt = Some ?n, completed = None\<rparr>"
  let ?h = "\<lparr>title = str ''Buy milk'', notes_txt = Some (str ''no id here''),
            completed = None\<rparr>"
  have lt: "label_token ?n 3 (str ''abc123'')"
    by (simp add: label_token_iff token_at_def label_def isspace_def)
  have first: "\<forall>j<3. \<forall>Y. \<not> label_token ?n j Y"
    by (simp add: label_token_iff token_at_def label_def less_Suc_eq eval_nat_numeral)
  have nl: "\<not> sublist label (str ''no id here'')"
    by (simp add: label_def sublist_Cons_right)
  from extract_notion_id_labelled [of ?g ?n 3 "str ''abc123''"]
    extract_notion_id_labelled [of ?h "str ''no id here''"] lt first nl
  show ?thesis by simp
qed

text \<open>
  Claim C9. On a task whose notes are \<^verbatim>\<open>None\<close> or the empty string the function returns
  \<^verbatim>\<open>None\<close>; and whenever it returns an identifier, the identifier is non-empty and
  holds no whitespace character. The function is total: the model is a terminating HOL
  function whose result type has no error value, as the source has no raising statement
  and \<^verbatim>\<open>re.search\<close> with this pattern accepts every string.
\<close>

theorem extract_notion_id_safe:
  "(notes_txt g = None \<or> notes_txt g = Some [] \<longrightarrow> extract_notion_id g = None) \<and>
   (extract_notion_id g = Some X \<longrightarrow> X \<noteq> [] \<and> list_all (\<lambda>c. \<not> isspace c) X)"
proof (intro conjI impI)
  assume "notes_txt g = None \<or> notes_txt g = Some []"
  then show "extract_notion_id g = None"
    by (auto simp: extract_notion_id_def)
next
  assume a: "extract_notion_id g = Some X"
  from extract_SomeD [OF a] obtain n i where "token_at (drop i n) = Some X" by blast
  from token_at_SomeD [OF this] show "X \<noteq> []" by blast
next
  assume a: "extract_notion_id g = Some X"
  from extract_SomeD [OF a] obtain n i where "token_at (drop i n) = Some X" by blast
  from token_at_SomeD [OF this] show "list_all (\<lambda>c. \<not> isspace c) X" by blast
qed

theorem extract_notion_id_safe_witness:
  "extract_notion_id \<lparr>title = str ''t'', notes_txt = None, completed = None\<rparr> = None \<and>
   extract_notion_id \<lparr>title = str ''t'', notes_txt = Some [], completed = Some 7\<rparr> = None \<and>
   extract_notion_id \<lparr>title = str ''t'', notes_txt = Some (str ''Notion ID:x1 y''),
      completed = None\<rparr> = Some (str ''x1'') \<and>
   str ''x1'' \<noteq> [] \<and> list_all (\<lambda>c. \<not> isspace c) (str ''x1'')"
proof -
  let ?g0 = "\<lparr>title = str ''t'', notes_txt = None, completed = None\<rparr>"
  let ?g1 = "\<lparr>title = str ''t'', notes_txt = Some [], completed = Some 7\<rparr>"
  let ?g2 = "\<lparr>title = str ''t'', notes_txt = Some (str ''Notion ID:x1 y''), completed = None\<rparr>"
  have e: "extract_notion_id ?g2 = Some (str ''x1'')"
    by (rule extract_first [of _ "str ''Notion ID:x1 y''" 0])
       (simp_all add: token_at_def label_def isspace_def)
  from extract_notion_id_safe [of ?g0] extract_notion_id_safe [of ?g1]
    extract_notion_id_safe [of ?g2 "str ''x1''"] e
  show ?thesis by simp
qed

section \<open>Claims about the Status Reconciler\<close>

lemma seq_Inr_iff:
  "seq m f = (Inr u, g', t) \<longleftrightarrow>
     (\<exists>g1 t1 t2. m = (Inr (), g1, t1) \<and> f g1 = (Inr u, g', t2) \<and> t = t1 @ t2)"
  by (cases m) (auto simp: seq_def split: sum.splits prod.splits)

lemma reconcile_cases:
  "update_google_task_status env g d =
     (if d \<and> completed g = None then
        (case fails env Mark_completed of
           Some e \<Rightarrow> (Inl e, g, [Mark_completed])
         | None \<Rightarrow>
            (case fails env Update of Some e \<Rightarrow> Inl e | None \<Rightarrow> Inr (),
             g\<lparr>completed := Some (now env)\<rparr>,
             [Mark_completed,
              Print (str ''Marked '' @ [39] @ title g @ [39] @ str '' as completed in Google Tasks.''),
              Update]))
      else if \<not> d \<and> completed g \<noteq> None then
        (case fails env Mark_incomplete of
           Some e \<Rightarrow> (Inl e, g, [Mark_incomplete])
         | None \<Rightarrow>
            (case fails env Update of Some e \<Rightarrow> Inl e | None \<Rightarrow> Inr (),
             g\<lparr>completed := None\<rparr>,
             [Mark_incomplete,
              Print (str ''Marked '' @ [39] @ title g @ [39] @ str '' as not completed in Google Tasks.''),
              Update]))
      else (case fails env Update of Some e \<Rightarrow> Inl e | None \<Rightarrow> Inr (), g, [Update]))"
  by (simp add: update_google_task_status_def seq_def print_line_def mark_completed_def
        mark_incomplete_def update_def Let_def split: option.splits)

text \<open>
  Claim C1. For every pair (sourceDone, targetDone), where the task is done iff its
  completion timestamp is not \<^verbatim>\<open>None\<close>: if the marking call that is due (if any) does
  not raise, then after the call of \<^verbatim>\<open>update_google_task_status\<close> the task is done iff
  \<^verbatim>\<open>notion_done\<close> is true; if the persistence call does not raise either, the call
  returns normally. And whenever the call returns normally, the task is done iff
  \<^verbatim>\<open>notion_done\<close> is true.
\<close>

theorem reconciler_aligns:
  "((sourceDone \<and> completed g = None \<longrightarrow> fails env Mark_completed = None) \<and>
    (\<not> sourceDone \<and> completed g \<noteq> None \<longrightarrow> fails env Mark_incomplete = None)
      \<longrightarrow> (completed (fst (snd (update_google_task_status env g sourceDone))) \<noteq> None) = sourceDone \<and>
          (fails env Update = None
             \<longrightarrow> fst (update_google_task_status env g sourceDone) = Inr ())) \<and>
   (update_google_task_status env g sourceDone = (Inr (), g', t)
      \<longrightarrow> (completed g' \<noteq> None) = sourceDone)"
  by (auto simp: reconcile_cases split: if_splits option.splits)

theorem reconciler_aligns_witness:
  "fails calm_env Mark_completed = None \<and> fails calm_env Mark_incomplete = None \<and>
   fails calm_env Update = None \<and>
   update_google_task_status calm_env
      \<lparr>title = str ''A'', notes_txt = None, completed = None\<rparr> True
     = (Inr (), \<lparr>title = str ''A'', notes_txt = None, completed = Some 1700000000\<rparr>,
        [Mark_completed,
         Print (str ''Marked '' @ [39] @ str ''A'' @ [39] @ str '' as completed in Google Tasks.''),
         Update]) \<and>
   update_google_task_status calm_env
      \<lparr>title = str ''A'', notes_txt = None, completed = Some 5\<rparr> False
     = (Inr (), \<lparr>title = str ''A'', notes_txt = None, completed = None\<rparr>,
        [Mark_incomplete,
         Print (str ''Marked '' @ [39] @ str ''A'' @ [39] @ str '' as not completed in Google Tasks.''),
         Update]) \<and>
   (completed (fst (snd (update_google_task_status calm_env
       \<lparr>title = str ''A'', notes_txt = None, completed = None\<rparr> True))) \<noteq> None) = True \<and>
   fst (update_google_task_status calm_env
       \<lparr>title = str ''A'', notes_txt = None, completed = None\<rparr> True) = Inr () \<and>
   (completed (fst (snd (update_google_task_status calm_env
       \<lparr>title = str ''A'', notes_txt = None, completed = Some 5\<rparr> False))) \<noteq> None) = False \<and>
   fst (update_google_task_status calm_env
       \<lparr>title = str ''A'', notes_txt = None, completed = Some 5\<rparr> False) = Inr ()"
proof -
  let ?g0 = "\<lparr>title = str ''A'', notes_txt = None, completed = None\<rparr>"
  let ?g1 = "\<lparr>title = str ''A'', notes_txt = None, completed = Some 5\<rparr>"
  let ?p0 = "Print (str ''Marked '' @ [39] @ str ''A'' @ [39] @ str '' as completed in Google Tasks.'')"
  let ?p1 = "Print (str ''Marked '' @ [39] @ str ''A'' @ [39] @ str '' as not completed in Google Tasks.'')"
  have f: "fails calm_env Mark_completed = None" "fails calm_env Mark_incomplete = None"
    "fails calm_env Update = None"
    by (simp_all add: calm_env_def)
  have a: "update_google_task_status calm_env ?g0 True
      = (Inr (), ?g0\<lparr>completed := Some 1700000000\<rparr>, [Mark_completed, ?p0, Update])"
    by (simp add: reconcile_cases calm_env_def)
  have b: "update_google_task_status calm_env ?g1 False
      = (Inr (), ?g1\<lparr>completed := None\<rparr>, [Mark_incomplete, ?p1, Update])"
    by (simp add: reconcile_cases calm_env_def)
  from reconciler_aligns [of True ?g0 calm_env] reconciler_aligns [of False ?g1 calm_env] f a b
  show ?thesis by simp
qed

text \<open>
  Claim C2, as stated, fails: with sourceDone = targetDone = true the persistence call
  \<^verbatim>\<open>gtask.update()\<close> is made all the same, because it stands after the \<^verbatim>\<open>if\<close>/\<^verbatim>\<open>elif\<close>.
\<close>

theorem reconciler_update_when_equal:
  "update_google_task_status calm_env
      \<lparr>title = str ''A'', notes_txt = None, completed = Some 5\<rparr> True
     = (Inr (), \<lparr>title = str ''A'', notes_txt = None, completed = Some 5\<rparr>, [Update]) \<and>
   \<not> (Update \<in> set (snd (snd (update_google_task_status calm_env
           \<lparr>title = str ''A'', notes_txt = None, completed = Some 5\<rparr> True)))
       \<longleftrightarrow> (completed \<lparr>title = str ''A'', notes_txt = None, completed = Some 5\<rparr> \<noteq> None) \<noteq> True)"
  by (simp add: reconcile_cases calm_env_def)

text \<open>
  Claim C2, amended. A marking call (\<^verbatim>\<open>mark_completed\<close> or \<^verbatim>\<open>mark_incomplete\<close>) is made
  if and only if sourceDone differed from targetDone beforehand. The persistence call
  \<^verbatim>\<open>update\<close> is made exactly once in every call in which the marking call that is due, if
  any, does not raise, whether or not the two differed.
\<close>

theorem reconciler_calls:
  "update_google_task_status env g sourceDone = (r, g', t) \<Longrightarrow>
     ((Mark_completed \<in> set t \<or> Mark_incomplete \<in> set t)
        \<longleftrightarrow> (completed g \<noteq> None) \<noteq> sourceDone) \<and>
     ((sourceDone \<and> completed g = None \<longrightarrow> fails env Mark_completed = None) \<and>
      (\<not> sourceDone \<and> completed g \<noteq> None \<longrightarrow> fails env Mark_incomplete = None)
        \<longrightarrow> count_list t Update = 1)"
  by (auto simp: reconcile_cases split: if_splits option.splits)

theorem reconciler_calls_witness:
  "update_google_task_status calm_env
      \<lparr>title = str ''A'', notes_txt = None, completed = Some 5\<rparr> True
     = (Inr (), \<lparr>title = str ''A'', notes_txt = None, completed = Some 5\<rparr>, [Update]) \<and>
   ((Mark_completed \<in> set [Update] \<or> Mark_incomplete \<in> set [Update])
      \<longleftrightarrow> (completed \<lparr>title = str ''A'', notes_txt = None, completed = Some 5\<rparr> \<noteq> None) \<noteq> True) \<and>
   count_list [Update] Update = 1 \<and>
   fails no_unmark_env Mark_incomplete = Some (LibraryError (str ''not supported'')) \<and>
   fails no_unmark_env Mark_completed = None \<and>
   update_google_task_status no_unmark_env
      \<lparr>title = str ''A'', notes_txt = None, completed = None\<rparr> True
     = (Inr (), \<lparr>title = str ''A'', notes_txt = None, completed = Some 1700000000\<rparr>,
        [Mark_completed,
         Print (str ''Marked '' @ [39] @ str ''A'' @ [39] @ str '' as completed in Google Tasks.''),
         Update]) \<and>
   count_list
     [Mark_completed,
      Print (str ''Marked '' @ [39] @ str ''A'' @ [39] @ str '' as completed in Google Tasks.''),
      Update] Update = 1"
proof -
  let ?g0 = "\<lparr>title = str ''A'', notes_txt = None, completed = None\<rparr>"
  let ?g1 = "\<lparr>title = str ''A'', notes_txt = None, completed = Some 5\<rparr>"
  let ?p0 = "Print (str ''Marked '' @ [39] @ str ''A'' @ [39] @ str '' as completed in Google Tasks.'')"
  have a: "update_google_task_status calm_env ?g1 True = (Inr (), ?g1, [Update])"
    by (simp add: reconcile_cases calm_env_def)
  have b: "update_google_task_status no_unmark_env ?g0 True
      = (Inr (), ?g0\<lparr>completed := Some 1700000000\<rparr>, [Mark_completed, ?p0, Update])"
    by (simp add: reconcile_cases no_unmark_env_def)
  have f: "fails no_unmark_env Mark_incomplete = Some (LibraryError (str ''not supported''))"
    "fails no_unmark_env Mark_completed = None"
    by (simp_all add: no_unmark_env_def)
  from reconciler_calls [OF a] reconciler_calls [OF b] a b f show ?thesis by simp
qed

text \<open>
  Claim C10. Whatever the outcome of a call of \<^verbatim>\<open>update_google_task_status\<close>, the task
  object differs from what it was in its completion state at most: its title, its notes
  (and so the back-reference in them) and every other attribute are unchanged.
\<close>

theorem reconciler_frame:
  "update_google_task_status env g sourceDone = (r, g', t) \<Longrightarrow>
     title g' = title g \<and> notes_txt g' = notes_txt g \<and> gtask.more g' = gtask.more g"
  by (auto simp: reconcile_cases split: if_splits option.splits)

theorem reconciler_frame_witness:
  "update_google_task_status calm_env
      \<lparr>title = str ''A'', notes_txt = Some (str ''Notion ID: abc123''), completed = None\<rparr> True
     = (Inr (),
        \<lparr>title = str ''A'', notes_txt = Some (str ''Notion ID: abc123''),
         completed = Some 1700000000\<rparr>,
        [Mark_completed,
         Print (str ''Marked '' @ [39] @ str ''A'' @ [39] @ str '' as completed in Google Tasks.''),
         Update]) \<and>
   title \<lparr>title = str ''A'', notes_txt = Some (str ''Notion ID: abc123''),
          completed = Some 1700000000\<rparr> = str ''A'' \<and>
   notes_txt \<lparr>title = str ''A'', notes_txt = Some (str ''Notion ID: abc123''),
          completed = Some 1700000000\<rparr> = Some (str ''Notion ID: abc123'')"
proof -
  let ?g0 = "\<lparr>title = str ''A'', notes_txt = Some (str ''Notion ID: abc123''), completed = None\<rparr>"
  let ?p0 = "Print (str ''Marked '' @ [39] @ str ''A'' @ [39] @ str '' as completed in Google Tasks.'')"
  have a: "update_google_task_status calm_env ?g0 True
      = (Inr (), ?g0\<lparr>completed := Some 1700000000\<rparr>, [Mark_completed, ?p0, Update])"
    by (simp add: reconcile_cases calm_env_def)
  from reconciler_frame [OF a] a show ?thesis by simp
qed

section \<open>Claims about the Query Filter\<close>

text \<open>
  Claim C4. The predicate built in \<^verbatim>\<open>sync_inbox_to_gtasks\<close> holds of a source record if
  and only if its status is \<^verbatim>\<open>Organized\<close> and its \<^verbatim>\<open>For Later\<close> flag is false and its
  \<^verbatim>\<open>Dump It\<close> flag is false (the properties under the names the filter gives them).
\<close>

theorem combined_filter_conjunction:
  "holds combined_filter pg \<longleftrightarrow>
     map_of (page_props pg) (str ''Status'') = Some (Status_value (str ''Organized'')) \<and>
     map_of (page_props pg) (str ''For Later'') = Some (Checkbox_value False) \<and>
     map_of (page_props pg) (str ''Dump It'') = Some (Checkbox_value False)"
  by (simp add: combined_filter_def status_filter_def for_later_filter_def dump_it_filter_def)

section \<open>Claims about the Sync Orchestrator\<close>

subsection \<open>Library calls and the shape of the trace\<close>

lemma lib_ok: "fails env ev = None \<Longrightarrow> lib env ev w = (Inr (), w\<lparr>trace := trace w @ [ev]\<rparr>)"
  by (simp add: lib_def bind_def emit_def ret_def)

lemma lib_fail: "fails env ev = Some e \<Longrightarrow> lib env ev w = (Inl e, w\<lparr>trace := trace w @ [ev]\<rparr>)"
  by (simp add: lib_def bind_def emit_def raise_def)

lemma emits_only_ret: "emits_only P (ret x)"
  by (simp add: emits_only_def ret_def)

lemma emits_only_raise: "emits_only P (raise e)"
  by (simp add: emits_only_def raise_def)

lemma emits_only_emit: "P ev \<Longrightarrow> emits_only P (emit ev)"
  by (simp add: emits_only_def emit_def)

lemma emits_only_bind:
  assumes m: "emits_only P m" and f: "\<And>x. emits_only P (f x)"
  shows "emits_only P (bind m f)"
  unfolding emits_only_def
proof
  fix w
  obtain r w1 where mw: "m w = (r, w1)" by (cases "m w")
  from m obtain t1 where t1: "trace w1 = trace w @ t1" "list_all P t1"
    unfolding emits_only_def using mw by (metis snd_conv)
  show "\<exists>t. trace (snd (bind m f w)) = trace w @ t \<and> list_all P t"
  proof (cases r)
    case (Inl e)
    with mw t1 show ?thesis by (auto simp: bind_def)
  next
    case (Inr x)
    from f [of x] obtain t2 where "trace (snd (f x w1)) = trace w1 @ t2" "list_all P t2"
      unfolding emits_only_def by blast
    with Inr mw t1 show ?thesis by (auto simp: bind_def)
  qed
qed

lemma emits_only_lib: "P ev \<Longrightarrow> emits_only P (lib env ev)"
  unfolding lib_def
  by (intro emits_only_bind emits_only_emit) (auto split: option.splits intro: emits_only_raise emits_only_ret)

lemma emits_only_leaving:
  assumes "emits_only P m" "P ev"
  shows "emits_only P (leaving m ev)"
  unfolding emits_only_def
proof
  fix w
  obtain r w1 where mw: "m w = (r, w1)" by (cases "m w")
  from assms(1) obtain t1 where "trace w1 = trace w @ t1" "list_all P t1"
    unfolding emits_only_def using mw by (metis snd_conv)
  with mw assms(2) show "\<exists>t. trace (snd (leaving m ev w)) = trace w @ t \<and> list_all P t"
    by (auto simp: leaving_def)
qed

lemma emits_only_subscript: "emits_only P (subscript d k)"
  by (simp add: subscript_def emits_only_raise emits_only_ret split: option.splits)

lemma emits_only_option_named: "emits_only P (option_named d k)"
  by (simp add: option_named_def emits_only_raise emits_only_ret)

lemma emits_only_print_results:
  "(\<And>s. P (Print s)) \<Longrightarrow> emits_only P (print_results env ps)"
proof (induction ps)
  case Nil
  show ?case by (simp add: emits_only_ret)
next
  case (Cons p ps)
  then show ?case
    by (auto intro!: emits_only_bind emits_only_emit emits_only_subscript)
qed

lemma emits_only_run_all_tasks:
  assumes "P Run_all_tasks"
  shows "emits_only P (run_all_tasks env s)"
  unfolding run_all_tasks_def
proof (rule emits_only_bind)
  show "emits_only P (lib env Run_all_tasks)" using assms by (rule emits_only_lib)
next
  fix x :: unit
  show "emits_only P (\<lambda>w. (Inr (), w\<lparr>tasks := run_tasks env s (tasks w)\<rparr>))"
    by (simp add: emits_only_def)
qed

lemma emits_only_sync_body: "emits_only orchestrator_event (sync_body env)"
  unfolding sync_body_def Let_def
  by (intro emits_only_bind emits_only_lib emits_only_print_results emits_only_option_named
        emits_only_run_all_tasks emits_only_emit)
     (auto intro: emits_only_emit emits_only_ret emits_only_raise
        intro!: emits_only_bind emits_only_lib emits_only_print_results emits_only_option_named
        emits_only_run_all_tasks)

lemma emits_only_sync: "emits_only orchestrator_event (sync_inbox_to_gtasks env)"
  unfolding sync_inbox_to_gtasks_def
  by (intro emits_only_bind emits_only_lib emits_only_leaving emits_only_sync_body) simp_all

subsection \<open>The claims\<close>

text \<open>
  Claim C5, as stated, fails: when the collection cannot be loaded because \<^verbatim>\<open>get_db\<close>
  raises (here: the service cannot be reached), nothing in \<^verbatim>\<open>sync_inbox_to_gtasks\<close>
  catches the exception. The invocation raises, and its message is not printed.
\<close>

theorem load_failure_raises:
  "fst (sync_inbox_to_gtasks offline_env one_task_world) = Inl (LibraryError (str ''timeout'')) \<and>
   Print (str ''Could not load the Notion database with ID: '' @ DATABASE_ID @ str ''.'')
     \<notin> set (trace (snd (sync_inbox_to_gtasks offline_env one_task_world)))"
  by (simp add: sync_inbox_to_gtasks_def sync_body_def bind_def leaving_def lib_def emit_def
        ret_def raise_def offline_env_def one_task_world_def)

text \<open>
  Claim C5, amended. The source recognises a collection that could not be loaded or is
  empty by the \<^verbatim>\<open>is_empty\<close> flag of the object \<^verbatim>\<open>get_db\<close> returns. In every invocation in
  which \<^verbatim>\<open>get_db\<close> returns such an object, the Orchestrator prints its message, returns
  without raising, and neither creates nor changes a task: the only calls it makes are
  those for the configuration and the two sessions, \<^verbatim>\<open>get_db\<close>, and the two session
  exits. In every invocation in which \<^verbatim>\<open>get_db\<close> itself raises, that exception leaves the
  Orchestrator, no message is printed, and again no task is created or changed.
\<close>

theorem empty_collection_skipped:
  "fails env Get_cfg = None \<Longrightarrow> fails env Open_session = None \<Longrightarrow>
   fails env (Open_gtasks_client client_secret_json token_json False) = None \<Longrightarrow>
     (fails env (Get_db DATABASE_ID) = None \<and> is_empty (the_db env) \<longrightarrow>
        sync_inbox_to_gtasks env w =
          (Inr (), w\<lparr>trace := trace w @
             [Get_cfg, Open_session, Open_gtasks_client client_secret_json token_json False,
              Get_db DATABASE_ID,
              Print (str ''Could not load the Notion database with ID: '' @ DATABASE_ID @ str ''.''),
              Close_gtasks_client, Close_session]\<rparr>) \<and>
        tasks (snd (sync_inbox_to_gtasks env w)) = tasks w) \<and>
     (fails env (Get_db DATABASE_ID) = Some e \<longrightarrow>
        sync_inbox_to_gtasks env w =
          (Inl e, w\<lparr>trace := trace w @
             [Get_cfg, Open_session, Open_gtasks_client client_secret_json token_json False,
              Get_db DATABASE_ID, Close_gtasks_client, Close_session]\<rparr>) \<and>
        tasks (snd (sync_inbox_to_gtasks env w)) = tasks w)"
  by (simp add: sync_inbox_to_gtasks_def sync_body_def bind_def leaving_def lib_ok lib_fail
        emit_def Let_def)

theorem empty_collection_skipped_witness:
  "is_empty (the_db calm_env) \<and>
   sync_inbox_to_gtasks calm_env one_task_world =
     (Inr (), one_task_world\<lparr>trace :=
        [Get_cfg, Open_session, Open_gtasks_client client_secret_json token_json False,
         Get_db DATABASE_ID,
         Print (str ''Could not load the Notion database with ID: '' @ DATABASE_ID @ str ''.''),
         Close_gtasks_client, Close_session]\<rparr>) \<and>
   tasks (snd (sync_inbox_to_gtasks calm_env one_task_world)) = tasks one_task_world \<and>
   fails offline_env (Get_db DATABASE_ID) = Some (LibraryError (str ''timeout'')) \<and>
   sync_inbox_to_gtasks offline_env one_task_world =
     (Inl (LibraryError (str ''timeout'')), one_task_world\<lparr>trace :=
        [Get_cfg, Open_session, Open_gtasks_client client_secret_json token_json False,
         Get_db DATABASE_ID, Close_gtasks_client, Close_session]\<rparr>)"
proof -
  have f: "fails calm_env Get_cfg = None" "fails calm_env Open_session = None"
    "fails calm_env (Open_gtasks_client client_secret_json token_json False) = None"
    and g: "fails calm_env (Get_db DATABASE_ID) = None"
    and e: "is_empty (the_db calm_env)"
    by (simp_all add: calm_env_def)
  have f': "fails offline_env Get_cfg = None" "fails offline_env Open_session = None"
    "fails offline_env (Open_gtasks_client client_secret_json token_json False) = None"
    and g': "fails offline_env (Get_db DATABASE_ID) = Some (LibraryError (str ''timeout''))"
    by (simp_all add: offline_env_def DATABASE_ID_def)
  from empty_collection_skipped
      [where e = "LibraryError (str ''timeout'')" and w = one_task_world, OF f]
    empty_collection_skipped
      [where e = "LibraryError (str ''timeout'')" and w = one_task_world, OF f']
    g e g'
  show ?thesis by (simp add: one_task_world_def)
qed

text \<open>
  No invocation of the Orchestrator, in any environment, makes one of the three calls of
  the Status Reconciler (\<^verbatim>\<open>mark_completed\<close>, \<^verbatim>\<open>mark_incomplete\<close>, \<^verbatim>\<open>update\<close>): the body of
  \<^verbatim>\<open>sync_inbox_to_gtasks\<close> never calls \<^verbatim>\<open>update_google_task_status\<close>.
\<close>

lemma orchestrator_never_reconciles:
  "\<exists>t. trace (snd (sync_inbox_to_gtasks env w)) = trace w @ t \<and>
       Update \<notin> set t \<and> Mark_completed \<notin> set t \<and> Mark_incomplete \<notin> set t"
proof -
  from emits_only_sync [of env] obtain t where
    t: "trace (snd (sync_inbox_to_gtasks env w)) = trace w @ t" "list_all orchestrator_event t"
    unfolding emits_only_def by blast
  from t(2) have "Update \<notin> set t \<and> Mark_completed \<notin> set t \<and> Mark_incomplete \<notin> set t"
    by (auto simp: list_all_iff)
  with t(1) show ?thesis by blast
qed

text \<open>
  Claim C6 at a concrete input. The database holds one page that satisfies the filter,
  and the task list holds a task with that page's back-reference, not completed, while
  the page's \<^verbatim>\<open>Done!\<close> box is checked. The invocation prints two lines for the page and
  raises \<^verbatim>\<open>KeyError\<close> on \<^verbatim>\<open>task.props['For later']\<close>: the filter names the property
  \<^verbatim>\<open>For Later\<close>. The task is left as it was, and the Status Reconciler is not called.
\<close>

theorem orchestrator_on_filtered_record:
  "sync_inbox_to_gtasks inbox_env one_task_world =
     (Inl (KeyError (str ''For later'')),
      one_task_world\<lparr>trace :=
        [Get_cfg, Open_session, Open_gtasks_client client_secret_json token_json False,
         Get_db DATABASE_ID, Execute_query combined_filter,
         Print (str ''Task: Write report''), Print (str ''Status: Organized''),
         Close_gtasks_client, Close_session]\<rparr>)"
  by (simp add: sync_inbox_to_gtasks_def sync_body_def bind_def leaving_def lib_ok emit_def
        Let_def inbox_env_def report_page_def one_task_world_def ret_def raise_def
        subscript_def combined_filter_def status_filter_def for_later_filter_def
        dump_it_filter_def)

section \<open>Claims about the Scheduling Loop\<close>

lemma loop_body_eq:
  "loop_body env w =
     (Inr (),
      (snd (sync_inbox_to_gtasks env w))
        \<lparr>trace := trace (snd (sync_inbox_to_gtasks env w)) @
           (case fst (sync_inbox_to_gtasks env w) of
              Inl e \<Rightarrow> [Print (str ''An error occurred during sync:'' @ str '' '' @ exn_str e)]
            | Inr _ \<Rightarrow> []) @
           [Sleep 60]\<rparr>)"
  by (cases "sync_inbox_to_gtasks env w")
     (auto simp: loop_body_def try_except_def bind_def emit_def SYNC_INTERVAL_def
        split: sum.splits)

lemma main_loop_Suc:
  "main_loop (Suc n) envs k w = main_loop n envs (Suc k) (snd (loop_body (envs k) w))"
  by (simp add: loop_body_eq)

lemma main_loop_running: "fst (main_loop n envs k w) = Still_running"
  by (induction n arbitrary: k w) (simp_all add: loop_body_eq)

lemma loop_body_sleeps_once:
  "\<exists>t. trace (snd (loop_body env w)) = trace w @ t \<and> filter is_sleep t = [Sleep 60]"
proof -
  from emits_only_sync [of env] obtain t where
    t: "trace (snd (sync_inbox_to_gtasks env w)) = trace w @ t" "list_all orchestrator_event t"
    unfolding emits_only_def by blast
  have "\<And>ev. orchestrator_event ev \<Longrightarrow> \<not> is_sleep ev"
    by (case_tac ev) simp_all
  with t(2) have "filter is_sleep t = []"
    by (auto simp: list_all_iff filter_empty_conv)
  with t(1) show ?thesis
    by (auto simp: loop_body_eq split: sum.splits)
qed

lemma main_loop_sleeps:
  "\<exists>t. trace (snd (main_loop n envs k w)) = trace w @ t \<and>
       filter is_sleep t = replicate n (Sleep 60)"
proof (induction n arbitrary: k w)
  case 0
  show ?case by simp
next
  case (Suc n)
  let ?w1 = "snd (loop_body (envs k) w)"
  from loop_body_sleeps_once [of "envs k" w] obtain t1 where
    t1: "trace ?w1 = trace w @ t1" "filter is_sleep t1 = [Sleep 60]" by blast
  from Suc.IH [of "Suc k" ?w1] obtain t2 where
    t2: "trace (snd (main_loop n envs (Suc k) ?w1)) = trace ?w1 @ t2"
      "filter is_sleep t2 = replicate n (Sleep 60)" by blast
  from t1 t2 have "trace (snd (main_loop (Suc n) envs k w)) = trace w @ (t1 @ t2)"
    "filter is_sleep (t1 @ t2) = replicate (Suc n) (Sleep 60)"
    by (simp_all add: main_loop_Suc del: main_loop.simps)
  then show ?case by blast
qed

text \<open>
  Claim C8. A pass of the loop body never raises, whatever the Orchestrator did: it is
  the Orchestrator's invocation, one printed line with the exception if the Orchestrator
  raised one, and a sleep of 60, with the tasks as the Orchestrator left them. The loop
  makes such a pass and goes on with the next one; after any number \<open>n\<close> of passes it is
  still running (no exception has ended it), and it has slept exactly \<open>n\<close> times, each
  time for 60: the interval never grows and no count of failures ends the loop.
\<close>

theorem scheduling_loop_runs_forever:
  "fst (loop_body env w) = Inr () \<and>
   trace (snd (loop_body env w)) =
     trace (snd (sync_inbox_to_gtasks env w)) @
     (case fst (sync_inbox_to_gtasks env w) of
        Inl e \<Rightarrow> [Print (str ''An error occurred during sync:'' @ str '' '' @ exn_str e)]
      | Inr _ \<Rightarrow> []) @
     [Sleep 60] \<and>
   tasks (snd (loop_body env w)) = tasks (snd (sync_inbox_to_gtasks env w)) \<and>
   main_loop (Suc n) envs k w = main_loop n envs (Suc k) (snd (loop_body (envs k) w)) \<and>
   fst (main_loop n envs k w) = Still_running \<and>
   fst (main n envs w) = Still_running \<and>
   (\<exists>t. trace (snd (main_loop n envs k w)) = trace w @ t \<and>
        filter is_sleep t = replicate n (Sleep 60))"
  using main_loop_running main_loop_sleeps main_loop_Suc
  by (simp add: main_def loop_body_eq)

theorem scheduling_loop_runs_forever_witness:
  "fst (sync_inbox_to_gtasks offline_env one_task_world) = Inl (LibraryError (str ''timeout'')) \<and>
   loop_body offline_env one_task_world =
     (Inr (), one_task_world\<lparr>trace :=
        [Get_cfg, Open_session, Open_gtasks_client client_secret_json token_json False,
         Get_db DATABASE_ID, Close_gtasks_client, Close_session,
         Print (str ''An error occurred during sync: timeout''), Sleep 60]\<rparr>) \<and>
   main_loop 2 (\<lambda>_. offline_env) 0 one_task_world =
     (Still_running, one_task_world\<lparr>trace :=
        [Get_cfg, Open_session, Open_gtasks_client client_secret_json token_json False,
         Get_db DATABASE_ID, Close_gtasks_client, Close_session,
         Print (str ''An error occurred during sync: timeout''), Sleep 60,
         Get_cfg, Open_session, Open_gtasks_client client_secret_json token_json False,
         Get_db DATABASE_ID, Close_gtasks_client, Close_session,
         Print (str ''An error occurred during sync: timeout''), Sleep 60]\<rparr>)"
proof -
  have s: "\<And>w. sync_inbox_to_gtasks offline_env w =
     (Inl (LibraryError (str ''timeout'')),
      w\<lparr>trace := trace w @
        [Get_cfg, Open_session, Open_gtasks_client client_secret_json token_json False,
         Get_db DATABASE_ID, Close_gtasks_client, Close_session]\<rparr>)"
    by (simp add: sync_inbox_to_gtasks_def sync_body_def bind_def leaving_def lib_def emit_def
          ret_def raise_def offline_env_def)
  have b: "\<And>w. loop_body offline_env w =
     (Inr (), w\<lparr>trace := trace w @
        [Get_cfg, Open_session, Open_gtasks_client client_secret_json token_json False,
         Get_db DATABASE_ID, Close_gtasks_client, Close_session,
         Print (str ''An error occurred during sync: timeout''), Sleep 60]\<rparr>)"
    using scheduling_loop_runs_forever [of offline_env _ 0 "\<lambda>_. offline_env" 0]
    by (simp add: s prod_eq_iff world.equality)
  have two: "main_loop 2 (\<lambda>_. offline_env) 0 one_task_world =
      main_loop 0 (\<lambda>_. offline_env) 2
        (snd (loop_body offline_env (snd (loop_body offline_env one_task_world))))"
    using scheduling_loop_runs_forever [of offline_env one_task_world 1 "\<lambda>_. offline_env" 0]
      scheduling_loop_runs_forever [of offline_env "snd (loop_body offline_env one_task_world)"
        0 "\<lambda>_. offline_env" 1]
    by (simp add: numeral_2_eq_2)
  from s [of one_task_world] b two show ?thesis
    by (simp add: one_task_world_def)
qed

end
